theory Spec2Isabelle
  imports Main "HOL-Library.Log_Nat"
begin

section \<open>Period clock\<close>

text \<open>
  The bot reads the wall clock through \<open>now_local()\<close> (a datetime in Europe/Minsk) and
  through \<open>int(time.time())\<close>. One reading of the clock is a record of the civil fields;
  the Unix time of the same instant is derived from it.
\<close>

record clock =
  year :: int
  month :: int
  day :: int
  hour :: int
  minute :: int
  second :: int

text \<open>
  Library behaviour, not repository code: the number of days from 1970-01-01 to a date of
  the proleptic Gregorian calendar, and \<open>LOCAL_TZ.localize(datetime(y, m, d, H, M, S)).timestamp()\<close>
  truncated by \<open>int\<close>. Europe/Minsk is UTC+3 without daylight saving (the source's own comment
  on \<open>LOCAL_TZ\<close> says GMT+3), so the zone is a fixed offset of three hours.
\<close>

definition days_from_civil :: "int \<Rightarrow> int \<Rightarrow> int \<Rightarrow> int" where
  "days_from_civil y m d =
     (let y' = (if m \<le> 2 then y - 1 else y);
          era = y' div 400;
          yoe = y' - era * 400;
          doy = (153 * (m + (if 2 < m then - 3 else 9)) + 2) div 5 + d - 1;
          doe = yoe * 365 + yoe div 4 - yoe div 100 + doy
      in era * 146097 + doe - 719468)"

text \<open>
  The days from the start of the 400-year cycle to March 1 of year \<open>y'\<close>, the part of
  \<open>days_from_civil\<close> that depends on the year alone.
\<close>

definition era_days :: "int \<Rightarrow> int" where
  "era_days y' =
     (let era = y' div 400; yoe = y' - era * 400
      in era * 146097 + yoe * 365 + yoe div 4 - yoe div 100)"

definition local_timestamp :: "int \<Rightarrow> int \<Rightarrow> int \<Rightarrow> int \<Rightarrow> int \<Rightarrow> int \<Rightarrow> int" where
  "local_timestamp y m d H M S =
     days_from_civil y m d * 86400 + H * 3600 + M * 60 + S - 3 * 3600"

definition time_time :: "clock \<Rightarrow> int" where
  "time_time now =
     local_timestamp (year now) (month now) (day now) (hour now) (minute now) (second now)"

text \<open>\<open>get_current_period\<close>: the pair (month, year) of now.\<close>

definition get_current_period :: "clock \<Rightarrow> int \<times> int" where
  "get_current_period now = (month now, year now)"

text \<open>\<open>get_active_payment_type\<close>: the phase of the month, by day.\<close>

definition get_active_payment_type :: "clock \<Rightarrow> string" where
  "get_active_payment_type now =
     (if 1 \<le> day now \<and> day now \<le> 5 then ''first''
      else if 15 \<le> day now \<and> day now \<le> 20 then ''second''
      else if 21 \<le> day now then ''half_month''
      else ''full_anytime'')"

section \<open>Tables\<close>

text \<open>
  A row of \<open>subscriptions\<close>. The flags \<open>active\<close> and \<open>removed\<close> are 0/1 integers in the
  schema; \<open>invite_link\<close>, \<open>group_id\<close> and \<open>next_payment_date\<close> may be NULL. The column
  \<open>last_notification_ts\<close> is written by the notification sender only and is left out.
\<close>

record subscription =
  sub_id :: int
  user_id :: int
  plan_id :: int
  start_ts :: int
  end_ts :: int
  active :: bool
  invite_link :: "string option"
  removed :: bool
  group_id :: "int option"
  payment_type :: string
  current_period_month :: int
  current_period_year :: int
  part_paid :: string
  next_payment_date :: "int option"

text \<open>
  A row of \<open>plans\<close>, with the columns the ledger code reads. The table is keyed by its
  primary key \<open>id\<close>, so it is a map from ids to rows.
\<close>

record plan =
  price_cents :: int
  plan_group_id :: "int option"

type_synonym plans = "int \<rightharpoonup> plan"

text \<open>A row of \<open>promo_codes\<close> in the column order of \<open>get_promo_code\<close>.\<close>

record promo =
  promo_id :: int
  code :: string
  discount_percent :: "int option"
  discount_fixed_cents :: "int option"
  is_active :: bool
  used_count :: int
  max_uses :: "int option"
  expires_ts :: "int option"


text \<open>Python truthiness of a nullable integer: neither \<open>None\<close> nor 0.\<close>

definition truthy :: "int option \<Rightarrow> bool" where
  "truthy v = (case v of None \<Rightarrow> False | Some n \<Rightarrow> n \<noteq> 0)"

section \<open>Promo engine\<close>

datatype promo_message =
    PercentApplied string int
  | FixedApplied string int
  | ApplyError

datatype py_error = OverflowError

text \<open>
  \<open>int(price_cents * discount_percent / 100)\<close>. The product is an exact integer. The
  division \<open>/\<close> of two Python integers is true division: its result is the double nearest
  to the exact quotient, ties to the even mantissa, and an \<open>OverflowError\<close> when that double
  would not be finite. \<open>int\<close> then truncates the double towards zero. A double is kept as
  its mantissa and exponent \<open>(m, e)\<close>, standing for \<open>m * 2 ^ e\<close> with a mantissa of at most
  53 bits.
\<close>

text \<open>The integer nearest to \<open>n / d\<close> for \<open>0 \<le> n\<close> and \<open>0 < d\<close>, ties to even.\<close>

definition round_half_even :: "int \<Rightarrow> int \<Rightarrow> int" where
  "round_half_even n d =
     (let k = n div d; r = n mod d
      in if 2 * r < d then k
         else if d < 2 * r then k + 1
         else if even k then k else k + 1)"

text \<open>The binary exponent of \<open>b / 100\<close> for \<open>0 < b\<close>: the \<open>x\<close> with \<open>2 ^ x \<le> b / 100 < 2 ^ (x + 1)\<close>.\<close>

definition quotient_exponent :: "int \<Rightarrow> int" where
  "quotient_exponent b =
     (let t = bitlen b - 7
      in if (if 0 \<le> t then 100 * 2 ^ nat t \<le> b else 100 \<le> b * 2 ^ nat (- t)) then t else t - 1)"

definition true_div_100 :: "int \<Rightarrow> py_error + int \<times> int" where
  "true_div_100 a =
     (if a = 0 then Inr (0, 0)
      else
        let b = \<bar>a\<bar>;
            e = quotient_exponent b - 52;
            m = (if e < 0 then round_half_even (b * 2 ^ nat (- e)) 100
                 else round_half_even b (100 * 2 ^ nat e))
        in if 0 \<le> e \<and> 2 ^ 1024 \<le> m * 2 ^ nat e then Inl OverflowError
           else Inr (sgn a * m, e))"

definition int_of_float :: "int \<times> int \<Rightarrow> int" where
  "int_of_float f =
     (case f of (m, e) \<Rightarrow>
        if 0 \<le> e then m * 2 ^ nat e else sgn m * (\<bar>m\<bar> div 2 ^ nat (- e)))"

definition int_div_100 :: "int \<Rightarrow> py_error + int" where
  "int_div_100 a = (case true_div_100 a of Inl err \<Rightarrow> Inl err | Inr f \<Rightarrow> Inr (int_of_float f))"

definition apply_promo_code :: "int \<Rightarrow> promo \<Rightarrow> py_error + int \<times> promo_message" where
  "apply_promo_code price promo_data =
     (if truthy (discount_percent promo_data) then
        (let pc = (case discount_percent promo_data of Some n \<Rightarrow> n | None \<Rightarrow> 0)
         in case int_div_100 (price * pc) of
              Inl err \<Rightarrow> Inl err
            | Inr discount \<Rightarrow>
                (let new_price = max 0 (price - discount)
                 in Inr (new_price, PercentApplied (code promo_data) pc)))
      else if truthy (discount_fixed_cents promo_data) then
        (let fx = (case discount_fixed_cents promo_data of Some n \<Rightarrow> n | None \<Rightarrow> 0);
             new_price = max 0 (price - fx)
         in Inr (new_price, FixedApplied (code promo_data) fx))
      else Inr (price, ApplyError))"

text \<open>
  The discount as the specification words it: \<open>floor(price * percent / 100)\<close> for a
  percent code, the fixed amount for a fixed code.
\<close>

definition spec_discount :: "int \<Rightarrow> promo \<Rightarrow> int" where
  "spec_discount price p =
     (case discount_percent p of
        Some pc \<Rightarrow>
          if pc \<noteq> 0 then (price * pc) div 100
          else (case discount_fixed_cents p of Some fx \<Rightarrow> fx | None \<Rightarrow> 0)
      | None \<Rightarrow> (case discount_fixed_cents p of Some fx \<Rightarrow> fx | None \<Rightarrow> 0))"





section \<open>Subscription ledger\<close>

text \<open>
  \<open>ORDER BY end_ts DESC LIMIT 1\<close> over the rows a query selected: a row with the greatest
  \<open>end_ts\<close>, if there is any row. Among rows with equal \<open>end_ts\<close> SQL leaves the choice
  open; the model takes the first in table order.
\<close>

fun order_by_end_ts_desc_limit_1 :: "subscription list \<Rightarrow> subscription option" where
  "order_by_end_ts_desc_limit_1 [] = None"
| "order_by_end_ts_desc_limit_1 (r # rs) =
     (case order_by_end_ts_desc_limit_1 rs of
        None \<Rightarrow> Some r
      | Some r' \<Rightarrow> if end_ts r < end_ts r' then Some r' else Some r)"

text \<open>\<open>WHERE user_id=? AND plan_id=? AND active=1 ORDER BY end_ts DESC LIMIT 1\<close>\<close>

definition select_active_sub :: "subscription list \<Rightarrow> int \<Rightarrow> int \<Rightarrow> subscription option" where
  "select_active_sub subs uid pid =
     order_by_end_ts_desc_limit_1 (filter (\<lambda>s. user_id s = uid \<and> plan_id s = pid \<and> active s) subs)"

text \<open>\<open>WHERE user_id=? AND plan_id=? AND active=0 ORDER BY end_ts DESC LIMIT 1\<close>\<close>

definition select_inactive_sub :: "subscription list \<Rightarrow> int \<Rightarrow> int \<Rightarrow> subscription option" where
  "select_inactive_sub subs uid pid =
     order_by_end_ts_desc_limit_1 (filter (\<lambda>s. user_id s = uid \<and> plan_id s = pid \<and> \<not> active s) subs)"

datatype sub_message =
    NoActiveSubscription
  | AlreadyFullThisMonth
  | FirstPartPaid
  | ActiveOtherPeriod
  | SubscriptionExpired

text \<open>
  \<open>check_existing_active_subscription\<close> returns (has_active_sub, sub_info, message). The
  joined plan title only feeds the message text; the message is kept as a tag.
\<close>

definition check_existing_active_subscription ::
  "clock \<Rightarrow> subscription list \<Rightarrow> int \<Rightarrow> int \<Rightarrow> bool \<times> subscription option \<times> sub_message" where
  "check_existing_active_subscription now subs uid pid =
     (let (current_month, current_year) = get_current_period now;
          now_ts = time_time now
      in case select_active_sub subs uid pid of
           None \<Rightarrow> (False, None, NoActiveSubscription)
         | Some existing_sub \<Rightarrow>
             if now_ts < end_ts existing_sub then
               (if current_period_month existing_sub = current_month
                   \<and> current_period_year existing_sub = current_year then
                  (if part_paid existing_sub = ''full'' then (True, Some existing_sub, AlreadyFullThisMonth)
                   else if part_paid existing_sub = ''first'' then (True, Some existing_sub, FirstPartPaid)
                   else (False, Some existing_sub, SubscriptionExpired))
                else (True, Some existing_sub, ActiveOtherPeriod))
             else (False, Some existing_sub, SubscriptionExpired))"

section \<open>Payment option resolver\<close>

text \<open>
  An entry of the list \<open>get_payment_options\<close> returns: the keys \<open>type\<close>, \<open>price\<close>, \<open>text\<close>
  and \<open>description\<close>. The two display strings are kept as tags, one per distinct string
  of the source.
\<close>

datatype caption = PayFull | PayFirstPart | PaySecondPart | PayHalfMonth

datatype explanation =
    AccessUntilDay5
  | PaidDays15To20AccessUntilDay5
  | SecondPartDueDays15To20 int
  | AccessUntilDay5Restored

record payment_option =
  otype :: string
  price :: int
  otext :: caption
  description :: explanation

definition get_payment_options ::
  "plans \<Rightarrow> clock \<Rightarrow> subscription list \<Rightarrow> int \<Rightarrow> int \<Rightarrow> payment_option list" where
  "get_payment_options plans now subs uid pid =
     (let (has_active_sub, sub_info, message) = check_existing_active_subscription now subs uid pid
      in if has_active_sub \<and> (case sub_info of None \<Rightarrow> False | Some s \<Rightarrow> part_paid s = ''full'') then []
         else
           let active_type = get_active_payment_type now
           in case plans pid of
                None \<Rightarrow> []
              | Some plan \<Rightarrow>
                  let first_part_price = price_cents plan div 2;
                      second_part_price = first_part_price;
                      has_paid_first_part =
                        (has_active_sub \<and> (case sub_info of None \<Rightarrow> False | Some s \<Rightarrow> part_paid s = ''first''))
                  in if 21 \<le> day now then
                       (if has_paid_first_part then
                          [\<lparr>otype = ''second_part_late'', price = second_part_price,
                            otext = PaySecondPart, description = AccessUntilDay5\<rparr>]
                        else
                          [\<lparr>otype = ''half_month'', price = first_part_price,
                            otext = PayHalfMonth, description = AccessUntilDay5\<rparr>])
                     else if active_type = ''first'' then
                       (if has_paid_first_part then
                          [\<lparr>otype = ''second_part'', price = second_part_price,
                            otext = PaySecondPart, description = PaidDays15To20AccessUntilDay5\<rparr>]
                        else
                          [\<lparr>otype = ''full'', price = price_cents plan,
                            otext = PayFull, description = AccessUntilDay5\<rparr>,
                           \<lparr>otype = ''partial'', price = first_part_price,
                            otext = PayFirstPart, description = SecondPartDueDays15To20 second_part_price\<rparr>])
                     else if active_type = ''second'' then
                       (if has_paid_first_part then
                          [\<lparr>otype = ''second_part'', price = second_part_price,
                            otext = PaySecondPart, description = AccessUntilDay5\<rparr>]
                        else
                          [\<lparr>otype = ''full'', price = price_cents plan,
                            otext = PayFull, description = AccessUntilDay5\<rparr>])
                     else
                       (if has_paid_first_part then
                          [\<lparr>otype = ''second_part_late'', price = second_part_price,
                            otext = PaySecondPart, description = AccessUntilDay5Restored\<rparr>]
                        else
                          [\<lparr>otype = ''full'', price = price_cents plan,
                            otext = PayFull, description = AccessUntilDay5\<rparr>]))"

text \<open>What the claims compare: the action and the price of each option, in order.\<close>

definition actions_and_prices :: "payment_option list \<Rightarrow> (string \<times> int) list" where
  "actions_and_prices opts = map (\<lambda>opt. (otype opt, price opt)) opts"


section \<open>Activation engine\<close>

text \<open>
  The calls the bot sends to the group-access collaborator, in the order sent. A failed
  \<open>unban_chat_member\<close> or \<open>ban_chat_member\<close> is caught and logged where it is made, so
  only the request is recorded.
\<close>

datatype request =
    UnbanChatMember int int
  | CreateChatInviteLink int
  | BanChatMember int int

text \<open>
  How \<open>activate_subscription\<close> can end without a link: its two \<open>return False, ...\<close> for a
  missing plan and a missing group, the one for a failed invite link, and the
  \<open>UnboundLocalError\<close> Python raises when \<open>payment_type\<close> matches no branch of the
  \<open>end_ts\<close> computation, so that \<open>end_ts\<close> and \<open>part_paid\<close> were never assigned.
\<close>

datatype activation_error =
    PlanNotFound
  | NoGroupConfigured
  | CredentialIssuanceFailed
  | UnboundLocalError

definition next_month_year :: "clock \<Rightarrow> int \<times> int" where
  "next_month_year now =
     (if month now = 12 then (1, year now + 1) else (month now + 1, year now))"

text \<open>
  Lines 471 to 501: \<open>existing_end_ts\<close> after the look at the active row. (The \<open>sub_id\<close>
  assigned next to it is overwritten before its only use.)
\<close>

definition existing_end_ts ::
  "clock \<Rightarrow> subscription list \<Rightarrow> int \<Rightarrow> int \<Rightarrow> subscription option \<Rightarrow> int" where
  "existing_end_ts now subs uid pid existing_sub =
     (let (current_month, current_year) = get_current_period now;
          start_ts = time_time now
      in case existing_sub of
           None \<Rightarrow> start_ts
         | Some e \<Rightarrow>
             if part_paid e = ''full'' \<and> current_period_month e = current_month
                \<and> current_period_year e = current_year then
               (case select_inactive_sub subs uid pid of
                  Some inactive_sub \<Rightarrow> end_ts inactive_sub
                | None \<Rightarrow> start_ts)
             else end_ts e)"

text \<open>
  Lines 503 to 556: \<open>end_ts\<close> and \<open>part_paid\<close> by payment type; \<open>None\<close> when no branch
  assigns them. The two arms under \<open>full\<close> and \<open>full_anytime\<close> are the same in the source.
\<close>

definition compute_end_ts ::
  "clock \<Rightarrow> string \<Rightarrow> subscription option \<Rightarrow> int \<Rightarrow> (int \<times> string) option" where
  "compute_end_ts now ptype existing_sub existing_end =
     (let start_ts = time_time now;
          (next_month, next_year) = next_month_year now
      in if ptype = ''half_month'' then
           Some (local_timestamp next_year next_month 5 23 59 59, ''full'')
         else if ptype = ''full'' \<or> ptype = ''full_anytime'' then
           (if existing_sub \<noteq> None \<and> start_ts < existing_end then
              Some (local_timestamp next_year next_month 5 23 59 59, ''full'')
            else
              Some (local_timestamp next_year next_month 5 23 59 59, ''full''))
         else if ptype = ''partial'' then
           Some (local_timestamp (year now) (month now) 15 23 59 59, ''first'')
         else if ptype = ''second_part'' \<or> ptype = ''second_part_late'' then
           Some (local_timestamp next_year next_month 5 23 59 59, ''full'')
         else None)"

text \<open>The id an autoincrement key gives the next inserted row.\<close>

definition next_sub_id :: "subscription list \<Rightarrow> int" where
  "next_sub_id subs = fold (\<lambda>s m. max m (sub_id s)) subs 0 + 1"

text \<open>
  Lines 565 to 601: the write. An active row of the current period is updated in place;
  an active row of another period is updated and moved to the current period; otherwise a
  row is inserted.
\<close>

definition commit_subscription ::
  "clock \<Rightarrow> subscription list \<Rightarrow> subscription option \<Rightarrow> int \<Rightarrow> int \<Rightarrow> int \<Rightarrow> string
     \<Rightarrow> int \<Rightarrow> string \<Rightarrow> string \<Rightarrow> subscription list" where
  "commit_subscription now subs existing_sub uid pid target_group_id ptype new_end new_part link =
     (let (current_month, current_year) = get_current_period now
      in case existing_sub of
           Some e \<Rightarrow>
             if current_period_month e = current_month \<and> current_period_year e = current_year then
               map (\<lambda>s. if sub_id s = sub_id e then
                           s\<lparr>payment_type := ptype, part_paid := new_part, end_ts := new_end,
                             invite_link := Some link, active := True, removed := False\<rparr>
                         else s) subs
             else
               map (\<lambda>s. if sub_id s = sub_id e then
                           s\<lparr>payment_type := ptype, part_paid := new_part,
                             current_period_month := current_month, current_period_year := current_year,
                             end_ts := new_end, invite_link := Some link, active := True, removed := False\<rparr>
                         else s) subs
         | None \<Rightarrow>
             subs @ [\<lparr>sub_id = next_sub_id subs, user_id = uid, plan_id = pid,
                      start_ts = time_time now, end_ts = new_end, active = True,
                      invite_link = Some link, removed = False, group_id = Some target_group_id,
                      payment_type = ptype, current_period_month = current_month,
                      current_period_year = current_year, part_paid = new_part,
                      next_payment_date = Some new_end\<rparr>])"

text \<open>
  \<open>activate_subscription\<close>. The invite-link collaborator is the function \<open>create_invite\<close>
  from the chat id to the link, \<open>None\<close> when \<open>create_chat_invite_link_one_time\<close> fails.
  The result is the outcome, the ledger afterwards and the requests sent.
\<close>

definition activate_subscription ::
  "plans \<Rightarrow> (int \<Rightarrow> string option) \<Rightarrow> clock \<Rightarrow> subscription list \<Rightarrow> int \<Rightarrow> int \<Rightarrow> string
     \<Rightarrow> int option \<Rightarrow> (activation_error + string) \<times> subscription list \<times> request list" where
  "activate_subscription plans create_invite now subs uid pid ptype gid =
     (case plans pid of
        None \<Rightarrow> (Inl PlanNotFound, subs, [])
      | Some plan \<Rightarrow>
          (case (if truthy (plan_group_id plan) then plan_group_id plan else gid) of
             None \<Rightarrow> (Inl NoGroupConfigured, subs, [])
           | Some target_group_id \<Rightarrow>
               if target_group_id = 0 then (Inl NoGroupConfigured, subs, [])
               else
                 let existing_sub = select_active_sub subs uid pid;
                     existing_end = existing_end_ts now subs uid pid existing_sub;
                     computed = compute_end_ts now ptype existing_sub existing_end;
                     requests = [UnbanChatMember target_group_id uid, CreateChatInviteLink target_group_id]
                 in (case create_invite target_group_id of
                       None \<Rightarrow> (Inl CredentialIssuanceFailed, subs, requests)
                     | Some link \<Rightarrow>
                         if link = [] then (Inl CredentialIssuanceFailed, subs, requests)
                         else
                           (case computed of
                              None \<Rightarrow> (Inl UnboundLocalError, subs, requests)
                            | Some (new_end, new_part) \<Rightarrow>
                                (Inr link,
                                 commit_subscription now subs existing_sub uid pid target_group_id
                                   ptype new_end new_part link,
                                 requests)))))"

text \<open>
  The rows a successful activation wrote: the rows carrying the id of the active row it
  found, or the row it appended.
\<close>

definition committed_rows ::
  "subscription list \<Rightarrow> int \<Rightarrow> int \<Rightarrow> subscription list \<Rightarrow> subscription list" where
  "committed_rows subs uid pid subs' =
     (case select_active_sub subs uid pid of
        Some e \<Rightarrow> filter (\<lambda>s. sub_id s = sub_id e) subs'
      | None \<Rightarrow> drop (length subs) subs')"


section \<open>Payment handlers\<close>






section \<open>Expiration sweeper\<close>

text \<open>
  Revocation of the rows a sweep selected, in the order of the loop body of the daily
  sweep: a ban request when the row has a group, then the update \<open>active = 0, removed = 1\<close>
  by row id.
\<close>

definition revoke_rows ::
  "subscription list \<Rightarrow> subscription list \<Rightarrow> subscription list \<times> request list" where
  "revoke_rows selected subs =
     (map (\<lambda>s. if sub_id s \<in> set (map sub_id selected) then s\<lparr>active := False, removed := True\<rparr> else s) subs,
      concat (map (\<lambda>s. case group_id s of
                          None \<Rightarrow> []
                        | Some g \<Rightarrow> if g \<noteq> 0 then [BanChatMember g (user_id s)] else []) selected))"

text \<open>
  The inner joins of the sweep statements: a row is selected only if its plan and its user
  exist.
\<close>

definition joined :: "plans \<Rightarrow> int list \<Rightarrow> subscription \<Rightarrow> bool" where
  "joined plans users s = (plans (plan_id s) \<noteq> None \<and> user_id s \<in> set users)"

text \<open>How one pass of the loop body ends: normally, or in the handler around it.\<close>

datatype sweep_outcome = Completed | OperationalError

text \<open>
  One pass of the body of \<open>check_expirations_loop\<close> over the ledger (the reminder block
  before it does not revoke). On day 6 at 00:00 and on day 21 at 00:00 the pass executes a
  SELECT whose text carries a remark that starts with \<open>#\<close> after the \<open>part_paid\<close> condition
  (lines 4219 and 4264). SQLite has no such comment: it rejects the statement
  (unrecognized token), \<open>cursor.execute\<close> raises \<open>sqlite3.OperationalError\<close> before any row
  is fetched, and the handler around the loop body logs the error and sleeps. The
  statement of the daily sweep at 01:00 has no remark and runs.
\<close>

definition check_expirations_tick ::
  "plans \<Rightarrow> int list \<Rightarrow> clock \<Rightarrow> subscription list
     \<Rightarrow> sweep_outcome \<times> subscription list \<times> request list" where
  "check_expirations_tick plans users now subs =
     (if day now = 6 \<and> hour now = 0 \<and> minute now = 0 then (OperationalError, subs, [])
      else if day now = 21 \<and> hour now = 0 \<and> minute now = 0 then (OperationalError, subs, [])
      else if hour now = 1 \<and> minute now = 0 then
        (case revoke_rows
                (filter (\<lambda>s. joined plans users s \<and> active s \<and> end_ts s < time_time now) subs) subs of
           (subs', requests) \<Rightarrow> (Completed, subs', requests))
      else (Completed, subs, []))"

section \<open>Example data\<close>

text \<open>
  A plan of price 1000 with a group, a clock reading on the hour, an invite collaborator
  that answers and one that fails, and a ledger row of user 7 for plan 1.
\<close>

definition example_plans :: plans where
  "example_plans = [1 \<mapsto> \<lparr>price_cents = 1000, plan_group_id = Some 500\<rparr>]"

definition clock_at :: "int \<Rightarrow> int \<Rightarrow> int \<Rightarrow> int \<Rightarrow> clock" where
  "clock_at y m d H = \<lparr>year = y, month = m, day = d, hour = H, minute = 0, second = 0\<rparr>"

definition issue_link :: "int \<Rightarrow> string option" where
  "issue_link g = Some ''https://t.me/+AbCdEf''"

definition no_link :: "int \<Rightarrow> string option" where
  "no_link g = None"

definition example_row :: "string \<Rightarrow> string \<Rightarrow> int \<Rightarrow> int \<Rightarrow> int \<Rightarrow> subscription" where
  "example_row ptype part m y e =
     \<lparr>sub_id = 1, user_id = 7, plan_id = 1, start_ts = 0, end_ts = e, active = True,
      invite_link = None, removed = False, group_id = Some 500, payment_type = ptype,
      current_period_month = m, current_period_year = y, part_paid = part,
      next_payment_date = Some e\<rparr>"

definition example_promo :: promo where
  "example_promo =
     \<lparr>promo_id = 5, code = ''SALE10'', discount_percent = Some 10, discount_fixed_cents = Some 0,
      is_active = True, used_count = 0, max_uses = None, expires_ts = None\<rparr>"


section \<open>Theorems\<close>

subsection \<open>Calendar\<close>

lemma leap_step_bounded:
  "\<forall>r \<in> set [1..399]. (r - 1) div 4 - (r - 1) div 100 \<le> r div 4 - r div (100::int)"
  by code_simp

lemma leap_step:
  fixes r :: int
  assumes "1 \<le> r" "r < 400"
  shows "(r - 1) div 4 - (r - 1) div 100 \<le> r div 4 - r div 100"
proof -
  have "r \<in> set [1..399]" using assms by simp
  then show ?thesis using leap_step_bounded by blast
qed

lemma year_days_raw:
  "(y - 1) div 400 * 146097 + ((y - 1) - (y - 1) div 400 * 400) * 365
     + ((y - 1) - (y - 1) div 400 * 400) div 4 - ((y - 1) - (y - 1) div 400 * 400) div 100 + 365
   \<le> y div 400 * 146097 + (y - y div 400 * 400) * 365
     + (y - y div 400 * 400) div 4 - (y - y div 400 * 400) div (100::int)"
proof -
  define q where "q = y div 400"
  define r where "r = y mod 400"
  have y: "y = q * 400 + r" and r: "0 \<le> r" "r < 400"
    by (simp_all add: q_def r_def)
  have d0: "y div 400 = q" by (simp add: q_def)
  show ?thesis
  proof (cases "r = 0")
    case True
    have d: "(y - 1) div 400 = q - 1" using y True by simp
    show ?thesis unfolding d d0 using y True by simp
  next
    case False
    then have r1: "1 \<le> r" using r by simp
    have "y - 1 = q * 400 + (r - 1)" using y by simp
    then have d: "(y - 1) div 400 = q" using r r1 by simp
    have e1: "y - 1 - q * 400 = r - 1" and e0: "y - q * 400 = r" using y by simp_all
    show ?thesis unfolding d d0 e1 e0 using leap_step[OF r1 r(2)] by simp
  qed
qed

text \<open>A year has at least 365 days.\<close>

lemma year_days: "era_days (y - 1) + 365 \<le> era_days y"
  unfolding era_days_def Let_def using year_days_raw[of y] by linarith

lemma days_from_civil_split:
  "days_from_civil y m d =
     era_days (if m \<le> 2 then y - 1 else y)
       + (153 * (m + (if 2 < m then - 3 else 9)) + 2) div 5 + d - 1 - 719468"
  by (simp add: days_from_civil_def era_days_def Let_def)

lemma month_cases:
  assumes "1 \<le> (m::int)" "m \<le> 12"
  shows "m = 1 \<or> m = 2 \<or> m = 3 \<or> m = 4 \<or> m = 5 \<or> m = 6 \<or> m = 7 \<or> m = 8
    \<or> m = 9 \<or> m = 10 \<or> m = 11 \<or> m = 12"
  using assms by arith

text \<open>The first day of the next month is at least 28 days after the first of this one.\<close>

lemma next_month_first:
  assumes "1 \<le> m" "m \<le> 12"
  shows "days_from_civil y m 1 + 28 \<le>
           (if m = 12 then days_from_civil (y + 1) 1 1 else days_from_civil y (m + 1) 1)"
proof -
  consider "m = 1" | "m = 2" | "m = 3" | "m = 4" | "m = 5" | "m = 6" | "m = 7" | "m = 8"
    | "m = 9" | "m = 10" | "m = 11" | "m = 12"
    using month_cases[OF assms] by blast
  then show ?thesis
  proof cases
    case 2
    then show ?thesis
      using year_days[of y] by (simp add: days_from_civil_split)
  qed (simp_all add: days_from_civil_split)
qed

text \<open>
  Every instant of a month lies before day 5, 23:59:59 of the next month: a row that
  carries this deadline has not expired while its period is the current one.
\<close>

lemma before_next_day5:
  assumes "1 \<le> m" "m \<le> 12" "d \<le> 31" "H \<le> 23" "M \<le> 59" "S \<le> 59"
  shows "local_timestamp y m d H M S <
           (if m = 12 then local_timestamp (y + 1) 1 5 23 59 59 else local_timestamp y (m + 1) 5 23 59 59)"
proof -
  have a: "days_from_civil y m d = days_from_civil y m 1 + d - 1" for d
    by (simp add: days_from_civil_split)
  have b: "days_from_civil (y + 1) 1 5 = days_from_civil (y + 1) 1 1 + 4"
    "days_from_civil y (m + 1) 5 = days_from_civil y (m + 1) 1 + 4"
    by (simp_all add: days_from_civil_split)
  show ?thesis
    using next_month_first[OF assms(1,2), of y] assms(3-6)
    unfolding local_timestamp_def a[of d] b
    by (auto split: if_splits)
qed

subsection \<open>Evaluation of the examples\<close>

lemmas eval_defs = example_plans_def clock_at_def issue_link_def no_link_def example_row_def
  activate_subscription_def truthy_def select_active_sub_def select_inactive_sub_def
  existing_end_ts_def compute_end_ts_def next_month_year_def commit_subscription_def
  get_current_period_def next_sub_id_def time_time_def Let_def
  get_payment_options_def check_existing_active_subscription_def get_active_payment_type_def
  actions_and_prices_def committed_rows_def

lemma example_timestamps:
  "local_timestamp 2026 11 2 12 0 0 = 1793610000"
  "local_timestamp 2026 11 3 12 0 0 = 1793696400"
  "local_timestamp 2026 11 15 12 0 0 = 1794733200"
  "local_timestamp 2026 11 15 23 59 59 = 1794776399"
  "local_timestamp 2026 11 17 12 0 0 = 1794906000"
  "local_timestamp 2026 12 5 23 59 59 = 1796504399"
  by (simp_all add: local_timestamp_def days_from_civil_def Let_def)

lemma example_partial_activation:
  "activate_subscription example_plans issue_link (clock_at 2026 11 3 12) [] 7 1 ''partial'' None
     = (Inr ''https://t.me/+AbCdEf'',
        [\<lparr>sub_id = 1, user_id = 7, plan_id = 1,
          start_ts = local_timestamp 2026 11 3 12 0 0,
          end_ts = local_timestamp 2026 11 15 23 59 59, active = True,
          invite_link = Some ''https://t.me/+AbCdEf'', removed = False, group_id = Some 500,
          payment_type = ''partial'', current_period_month = 11, current_period_year = 2026,
          part_paid = ''first'',
          next_payment_date = Some (local_timestamp 2026 11 15 23 59 59)\<rparr>],
        [UnbanChatMember 500 7, CreateChatInviteLink 500])"
  by (simp add: eval_defs)

lemma example_second_part_activation:
  "activate_subscription example_plans issue_link (clock_at 2026 11 15 12)
     [example_row ''partial'' ''first'' 11 2026 (local_timestamp 2026 11 15 23 59 59)]
     7 1 ''second_part'' None
     = (Inr ''https://t.me/+AbCdEf'',
        [(example_row ''partial'' ''first'' 11 2026 (local_timestamp 2026 11 15 23 59 59))
           \<lparr>payment_type := ''second_part'', part_paid := ''full'',
            end_ts := local_timestamp 2026 12 5 23 59 59,
            invite_link := Some ''https://t.me/+AbCdEf'', active := True, removed := False\<rparr>],
        [UnbanChatMember 500 7, CreateChatInviteLink 500])"
  by (simp add: eval_defs)

subsection \<open>Payment option resolver\<close>

lemma order_by_end_ts_member:
  "order_by_end_ts_desc_limit_1 xs = Some s \<Longrightarrow> s \<in> set xs"
  by (induction xs arbitrary: s) (auto split: option.splits if_splits)

lemma order_by_end_ts_single:
  "xs \<noteq> [] \<Longrightarrow> \<forall>x \<in> set xs. x = s \<Longrightarrow> order_by_end_ts_desc_limit_1 xs = Some s"
  by (induction xs) (auto split: option.splits dest: order_by_end_ts_member)

lemma select_active_sub_member:
  assumes "select_active_sub subs uid pid = Some s"
  shows "s \<in> set subs \<and> user_id s = uid \<and> plan_id s = pid \<and> active s"
  using order_by_end_ts_member[OF assms[unfolded select_active_sub_def]] by simp

lemma select_active_sub_unique:
  assumes "s \<in> set subs" "user_id s = uid" "plan_id s = pid" "active s"
    and "\<forall>t \<in> set subs. user_id t = uid \<and> plan_id t = pid \<and> active t \<longrightarrow> t = s"
  shows "select_active_sub subs uid pid = Some s"
proof -
  let ?xs = "filter (\<lambda>s. user_id s = uid \<and> plan_id s = pid \<and> active s) subs"
  have mem: "s \<in> set ?xs" using assms(1-4) by simp
  have ne: "?xs \<noteq> []" using mem by (metis empty_iff empty_set)
  have "\<forall>x \<in> set ?xs. x = s" using assms(5) by simp
  then show ?thesis
    unfolding select_active_sub_def using order_by_end_ts_single[OF ne] by blast
qed

lemma options_empty_when_full_running:
  assumes "select_active_sub subs uid pid = Some s" "part_paid s = ''full''"
    and "time_time now < end_ts s"
  shows "get_payment_options plans now subs uid pid = []"
  using assms
  by (simp add: get_payment_options_def check_existing_active_subscription_def
        get_current_period_def Let_def)

lemma time_time_before_deadline:
  assumes "1 \<le> month now" "month now \<le> 12" "day now \<le> 31" "hour now \<le> 23"
    "minute now \<le> 59" "second now \<le> 59"
  shows "time_time now < (case next_month_year now of (nm, ny) \<Rightarrow> local_timestamp ny nm 5 23 59 59)"
  using before_next_day5[OF assms, of "year now"]
  by (simp add: time_time_def next_month_year_def split: if_splits)

text \<open>
  C2. In every phase, when the subscription row of the user for the plan has
  \<open>part_paid = full\<close> for the current period, \<open>get_payment_options\<close> returns the empty
  list. The row is the one active row of the pair, and its \<open>end_ts\<close> is what
  \<open>activate_subscription\<close> writes together with \<open>part_paid = full\<close>: day 5 of the next
  month, 23:59:59, which no instant of the current month reaches.
\<close>

theorem no_options_when_full_this_period:
  assumes "1 \<le> month now" "month now \<le> 12" "day now \<le> 31" "hour now \<le> 23"
    "minute now \<le> 59" "second now \<le> 59"
    and "s \<in> set subs" "user_id s = uid" "plan_id s = pid" "active s"
    and "\<forall>t \<in> set subs. user_id t = uid \<and> plan_id t = pid \<and> active t \<longrightarrow> t = s"
    and "part_paid s = ''full''"
    and "current_period_month s = month now" "current_period_year s = year now"
    and "end_ts s = (case next_month_year now of (nm, ny) \<Rightarrow> local_timestamp ny nm 5 23 59 59)"
  shows "get_payment_options plans now subs uid pid = []"
proof -
  have sel: "select_active_sub subs uid pid = Some s"
    using select_active_sub_unique assms(7-11) by blast
  have "time_time now < end_ts s"
    using time_time_before_deadline[OF assms(1-6)] assms(15) by simp
  then show ?thesis
    using options_empty_when_full_running[OF sel assms(12)] by simp
qed

theorem no_options_when_full_this_period_witness:
  "get_payment_options example_plans (clock_at 2026 11 17 12)
     [example_row ''full'' ''full'' 11 2026 (local_timestamp 2026 12 5 23 59 59)] 7 1 = []"
  using no_options_when_full_this_period
          [where now = "clock_at 2026 11 17 12"
             and s = "example_row ''full'' ''full'' 11 2026 (local_timestamp 2026 12 5 23 59 59)"
             and subs = "[example_row ''full'' ''full'' 11 2026 (local_timestamp 2026 12 5 23 59 59)]"
             and uid = 7 and pid = 1 and plans = example_plans]
  by (simp add: clock_at_def example_row_def next_month_year_def)

text \<open>
  C10. When the one active row of the pair belongs to another period, has
  \<open>part_paid = full\<close> and an \<open>end_ts\<close> still in the future, \<open>get_payment_options\<close> returns
  the empty list.
\<close>

theorem no_options_when_prior_full_running:
  assumes "s \<in> set subs" "user_id s = uid" "plan_id s = pid" "active s"
    and "\<forall>t \<in> set subs. user_id t = uid \<and> plan_id t = pid \<and> active t \<longrightarrow> t = s"
    and "current_period_month s \<noteq> month now \<or> current_period_year s \<noteq> year now"
    and "part_paid s = ''full''"
    and "time_time now < end_ts s"
  shows "get_payment_options plans now subs uid pid = []"
proof -
  have sel: "select_active_sub subs uid pid = Some s"
    using select_active_sub_unique assms(1-5) by blast
  show ?thesis
    using options_empty_when_full_running[OF sel assms(7) assms(8)] .
qed

theorem no_options_when_prior_full_running_witness:
  "get_payment_options example_plans (clock_at 2026 11 3 12)
     [example_row ''full'' ''full'' 10 2026 (local_timestamp 2026 11 5 23 59 59)] 7 1 = []"
  using no_options_when_prior_full_running
          [where now = "clock_at 2026 11 3 12"
             and s = "example_row ''full'' ''full'' 10 2026 (local_timestamp 2026 11 5 23 59 59)"
             and subs = "[example_row ''full'' ''full'' 10 2026 (local_timestamp 2026 11 5 23 59 59)]"
             and uid = 7 and pid = 1 and plans = example_plans]
  by (simp add: clock_at_def example_row_def time_time_def local_timestamp_def
        days_from_civil_def Let_def)

lemma check_existing_no_payment:
  assumes "\<forall>t \<in> set subs. user_id t = uid \<and> plan_id t = pid \<and> active t \<longrightarrow> part_paid t = ''none''"
  shows "case check_existing_active_subscription now subs uid pid of
           (has, info, msg) \<Rightarrow> (case info of None \<Rightarrow> \<not> has | Some s \<Rightarrow> part_paid s = ''none'')"
proof (cases "select_active_sub subs uid pid")
  case None
  then show ?thesis
    by (simp add: check_existing_active_subscription_def get_current_period_def Let_def)
next
  case (Some s)
  then have "part_paid s = ''none''"
    using select_active_sub_member[OF Some] assms by blast
  then show ?thesis using Some
    by (simp add: check_existing_active_subscription_def get_current_period_def Let_def)
qed

text \<open>
  C3. For a plan of price P and a user with no prior payment (no active row of the pair, or
  only rows with \<open>part_paid = none\<close>): on days 1 to 5 the options are full at P, then
  partial at \<open>P div 2\<close>; on days 6 to 20 the one option is full at P; from day 21 the one
  option is half_month at \<open>P div 2\<close>.
\<close>

theorem options_without_prior_payment:
  assumes "plans pid = Some plan"
    and "\<forall>t \<in> set subs. user_id t = uid \<and> plan_id t = pid \<and> active t \<longrightarrow> part_paid t = ''none''"
  shows "(1 \<le> day now \<and> day now \<le> 5 \<longrightarrow>
            actions_and_prices (get_payment_options plans now subs uid pid)
              = [(''full'', price_cents plan), (''partial'', price_cents plan div 2)])
       \<and> (6 \<le> day now \<and> day now \<le> 20 \<longrightarrow>
            actions_and_prices (get_payment_options plans now subs uid pid)
              = [(''full'', price_cents plan)])
       \<and> (21 \<le> day now \<longrightarrow>
            actions_and_prices (get_payment_options plans now subs uid pid)
              = [(''half_month'', price_cents plan div 2)])"
proof -
  obtain has info msg where c: "check_existing_active_subscription now subs uid pid = (has, info, msg)"
    by (cases "check_existing_active_subscription now subs uid pid") auto
  have k: "case info of None \<Rightarrow> \<not> has | Some s \<Rightarrow> part_paid s = ''none''"
    using check_existing_no_payment[OF assms(2), of now] c by simp
  show ?thesis
  proof (cases info)
    case None
    then have "\<not> has" using k by simp
    then show ?thesis using c None assms(1)
      by (simp add: get_payment_options_def actions_and_prices_def get_active_payment_type_def Let_def)
  next
    case (Some s)
    then have "part_paid s = ''none''" using k by simp
    then show ?thesis using c Some assms(1)
      by (simp add: get_payment_options_def actions_and_prices_def get_active_payment_type_def Let_def)
  qed
qed

theorem options_without_prior_payment_witness:
  "actions_and_prices (get_payment_options example_plans (clock_at 2026 11 3 12) [] 7 1)
     = [(''full'', 1000), (''partial'', 500)]
   \<and> actions_and_prices (get_payment_options example_plans (clock_at 2026 11 10 12) [] 7 1)
     = [(''full'', 1000)]
   \<and> actions_and_prices (get_payment_options example_plans (clock_at 2026 11 25 12) [] 7 1)
     = [(''half_month'', 500)]"
  using options_without_prior_payment
          [where plans = example_plans and pid = 1 and subs = "[]" and uid = 7
             and plan = "\<lparr>price_cents = 1000, plan_group_id = Some 500\<rparr>"
             and now = "clock_at 2026 11 3 12"]
        options_without_prior_payment
          [where plans = example_plans and pid = 1 and subs = "[]" and uid = 7
             and plan = "\<lparr>price_cents = 1000, plan_group_id = Some 500\<rparr>"
             and now = "clock_at 2026 11 10 12"]
        options_without_prior_payment
          [where plans = example_plans and pid = 1 and subs = "[]" and uid = 7
             and plan = "\<lparr>price_cents = 1000, plan_group_id = Some 500\<rparr>"
             and now = "clock_at 2026 11 25 12"]
  by (simp add: example_plans_def clock_at_def)

subsection \<open>Activation engine\<close>

lemma activate_subscription_success:
  assumes "activate_subscription plans create_invite now subs uid pid ptype gid = (Inr link, subs', requests)"
  shows "\<exists>g new_end new_part.
           compute_end_ts now ptype (select_active_sub subs uid pid)
             (existing_end_ts now subs uid pid (select_active_sub subs uid pid)) = Some (new_end, new_part)
         \<and> subs' = commit_subscription now subs (select_active_sub subs uid pid) uid pid g
                      ptype new_end new_part link"
  using assms
  by (auto simp: activate_subscription_def Let_def split: option.splits if_splits)

lemma activate_subscription_failure:
  assumes "fst (activate_subscription plans create_invite now subs uid pid ptype gid) = Inl err"
  shows "fst (snd (activate_subscription plans create_invite now subs uid pid ptype gid)) = subs"
  using assms
  by (auto simp: activate_subscription_def Let_def split: option.splits if_splits)

lemma compute_end_ts_cases:
  assumes "compute_end_ts now ptype existing x = Some (new_end, new_part)"
  shows "(ptype = ''partial'' \<and> new_end = local_timestamp (year now) (month now) 15 23 59 59
            \<and> new_part = ''first'')
       \<or> ((ptype = ''full'' \<or> ptype = ''full_anytime'' \<or> ptype = ''half_month''
             \<or> ptype = ''second_part'' \<or> ptype = ''second_part_late'')
            \<and> new_end = (case next_month_year now of (nm, ny) \<Rightarrow> local_timestamp ny nm 5 23 59 59)
            \<and> new_part = ''full'')"
  using assms
  by (auto simp: compute_end_ts_def Let_def split: if_splits prod.splits)

lemma compute_end_ts_ignores_existing:
  "compute_end_ts now ptype existing x = compute_end_ts now ptype existing' y"
  by (simp add: compute_end_ts_def Let_def split: prod.splits)

text \<open>
  A row that \<open>activate_subscription\<close> wrote for an earlier period and that is still
  running ends on day 5 of the current month; whatever is paid next, the new \<open>end_ts\<close> is
  not before that day.
\<close>

lemma renewal_not_shorter_after_day5_row:
  assumes "1 \<le> month now" "month now \<le> 12"
    and "compute_end_ts now ptype existing x = Some (new_end, new_part)"
  shows "local_timestamp (year now) (month now) 5 23 59 59 \<le> new_end"
proof -
  have a: "local_timestamp (year now) (month now) 5 23 59 59
             \<le> local_timestamp (year now) (month now) 15 23 59 59"
    by (simp add: local_timestamp_def days_from_civil_split)
  have b: "local_timestamp (year now) (month now) 5 23 59 59
             < (case next_month_year now of (nm, ny) \<Rightarrow> local_timestamp ny nm 5 23 59 59)"
    using before_next_day5[OF assms(1,2), of 5 23 59 59 "year now"]
    by (simp add: next_month_year_def split: if_splits)
  show ?thesis using compute_end_ts_cases[OF assms(3)] a b by auto
qed

lemma committed_rows_written:
  assumes "r \<in> set (committed_rows subs uid pid
                      (commit_subscription now subs (select_active_sub subs uid pid) uid pid g
                         ptype new_end new_part link))"
  shows "payment_type r = ptype \<and> part_paid r = new_part \<and> end_ts r = new_end \<and> active r
         \<and> \<not> removed r \<and> invite_link r = Some link"
  using assms
  by (auto simp: committed_rows_def commit_subscription_def get_current_period_def Let_def
           split: option.splits if_splits)

lemma filter_map_keeps_id:
  assumes "e \<in> set subs" "\<And>s. sub_id (f s) = sub_id s"
  shows "filter (\<lambda>s. sub_id s = sub_id e) (map f subs) \<noteq> []"
proof -
  have "f e \<in> set (map f subs)" using assms(1) by simp
  moreover have "sub_id (f e) = sub_id e" using assms(2) by simp
  ultimately show ?thesis by (auto simp: filter_empty_conv)
qed

lemma committed_rows_nonempty:
  "committed_rows subs uid pid
     (commit_subscription now subs (select_active_sub subs uid pid) uid pid g
        ptype new_end new_part link) \<noteq> []"
proof (cases "select_active_sub subs uid pid")
  case None
  then show ?thesis
    by (simp add: committed_rows_def commit_subscription_def get_current_period_def Let_def)
next
  case (Some e)
  then have e: "e \<in> set subs" using select_active_sub_member by blast
  show ?thesis
    unfolding committed_rows_def commit_subscription_def get_current_period_def Let_def Some
    by (simp add: filter_map_keeps_id[OF e])
qed

text \<open>
  C4. After a successful activation the row written has the payment type paid for and is
  active; for \<open>partial\<close> its \<open>end_ts\<close> is day 15 of the current month at 23:59:59 and
  \<open>part_paid\<close> is \<open>first\<close>; for \<open>full\<close>, \<open>full_anytime\<close>, \<open>half_month\<close>, \<open>second_part\<close>
  and \<open>second_part_late\<close> its \<open>end_ts\<close> is day 5 of the next month at 23:59:59 and
  \<open>part_paid\<close> is \<open>full\<close>.
\<close>

theorem activation_end_ts_by_payment_type:
  assumes "activate_subscription plans create_invite now subs uid pid ptype gid = (Inr link, subs', requests)"
  shows "committed_rows subs uid pid subs' \<noteq> []
       \<and> (\<forall>r \<in> set (committed_rows subs uid pid subs').
             payment_type r = ptype \<and> active r
           \<and> (ptype = ''partial'' \<longrightarrow>
                 end_ts r = local_timestamp (year now) (month now) 15 23 59 59
               \<and> part_paid r = ''first'')
           \<and> (ptype = ''full'' \<or> ptype = ''full_anytime'' \<or> ptype = ''half_month''
                \<or> ptype = ''second_part'' \<or> ptype = ''second_part_late'' \<longrightarrow>
                 end_ts r = (case next_month_year now of (nm, ny) \<Rightarrow> local_timestamp ny nm 5 23 59 59)
               \<and> part_paid r = ''full''))"
proof -
  obtain g new_end new_part where
    c: "compute_end_ts now ptype (select_active_sub subs uid pid)
          (existing_end_ts now subs uid pid (select_active_sub subs uid pid)) = Some (new_end, new_part)"
    and s: "subs' = commit_subscription now subs (select_active_sub subs uid pid) uid pid g
                      ptype new_end new_part link"
    using activate_subscription_success[OF assms] by blast
  have ne: "committed_rows subs uid pid subs' \<noteq> []"
    unfolding s by (rule committed_rows_nonempty)
  have rows: "payment_type r = ptype \<and> part_paid r = new_part \<and> end_ts r = new_end \<and> active r"
    if "r \<in> set (committed_rows subs uid pid subs')" for r
    using committed_rows_written[OF that[unfolded s]] by simp
  show ?thesis
    using ne rows compute_end_ts_cases[OF c] by auto
qed

theorem activation_end_ts_by_payment_type_witness:
  "map (\<lambda>r. (end_ts r, part_paid r))
     (committed_rows [] 7 1
        (fst (snd (activate_subscription example_plans issue_link (clock_at 2026 11 3 12) []
                     7 1 ''partial'' None))))
     = [(local_timestamp 2026 11 15 23 59 59, ''first'')]
   \<and> map (\<lambda>r. (end_ts r, part_paid r))
     (committed_rows
        [example_row ''partial'' ''first'' 11 2026 (local_timestamp 2026 11 15 23 59 59)] 7 1
        (fst (snd (activate_subscription example_plans issue_link (clock_at 2026 11 15 12)
                     [example_row ''partial'' ''first'' 11 2026 (local_timestamp 2026 11 15 23 59 59)]
                     7 1 ''second_part'' None))))
     = [(local_timestamp 2026 12 5 23 59 59, ''full'')]"
proof -
  have k1: "committed_rows [] 7 1 [r1] = [r1]" for r1
    by (simp add: committed_rows_def select_active_sub_def)
  have k2: "committed_rows
              [example_row ''partial'' ''first'' 11 2026 (local_timestamp 2026 11 15 23 59 59)] 7 1
              [(example_row ''partial'' ''first'' 11 2026 (local_timestamp 2026 11 15 23 59 59))
                 \<lparr>payment_type := p, part_paid := q, end_ts := e, invite_link := l,
                  active := True, removed := False\<rparr>]
            = [(example_row ''partial'' ''first'' 11 2026 (local_timestamp 2026 11 15 23 59 59))
                 \<lparr>payment_type := p, part_paid := q, end_ts := e, invite_link := l,
                  active := True, removed := False\<rparr>]" for p q e l
    by (simp add: committed_rows_def select_active_sub_def example_row_def)
  show ?thesis
    using activation_end_ts_by_payment_type[OF example_partial_activation]
          activation_end_ts_by_payment_type[OF example_second_part_activation]
    unfolding example_partial_activation example_second_part_activation fst_conv snd_conv k1 k2
    by (simp add: clock_at_def next_month_year_def)
qed

text \<open>
  C6. A plan without a group makes \<open>activate_subscription\<close> return \<open>NoGroupConfigured\<close>
  with the ledger as it was and no request sent; a failed invite link makes it return
  \<open>CredentialIssuanceFailed\<close> with the ledger as it was; and whatever the failure, every
  subscription row is unchanged.
\<close>

theorem activation_failure_leaves_ledger:
  "(plans pid = Some plan
      \<and> \<not> truthy (if truthy (plan_group_id plan) then plan_group_id plan else gid)
    \<longrightarrow> activate_subscription plans create_invite now subs uid pid ptype gid
          = (Inl NoGroupConfigured, subs, []))
 \<and> (plans pid = Some plan
      \<and> (if truthy (plan_group_id plan) then plan_group_id plan else gid) = Some g \<and> g \<noteq> 0
      \<and> (create_invite g = None \<or> create_invite g = Some [])
    \<longrightarrow> fst (activate_subscription plans create_invite now subs uid pid ptype gid)
          = Inl CredentialIssuanceFailed
      \<and> fst (snd (activate_subscription plans create_invite now subs uid pid ptype gid)) = subs)
 \<and> (\<forall>err. fst (activate_subscription plans create_invite now subs uid pid ptype gid) = Inl err
      \<longrightarrow> fst (snd (activate_subscription plans create_invite now subs uid pid ptype gid)) = subs)"
proof -
  have a: "plans pid = Some plan
      \<and> \<not> truthy (if truthy (plan_group_id plan) then plan_group_id plan else gid)
    \<longrightarrow> activate_subscription plans create_invite now subs uid pid ptype gid
          = (Inl NoGroupConfigured, subs, [])"
    by (auto simp: activate_subscription_def truthy_def Let_def split: option.splits if_splits)
  have b: "plans pid = Some plan
      \<and> (if truthy (plan_group_id plan) then plan_group_id plan else gid) = Some g \<and> g \<noteq> 0
      \<and> (create_invite g = None \<or> create_invite g = Some [])
    \<longrightarrow> fst (activate_subscription plans create_invite now subs uid pid ptype gid)
          = Inl CredentialIssuanceFailed"
    by (auto simp: activate_subscription_def Let_def split: option.splits if_splits)
  show ?thesis using a b activate_subscription_failure by blast
qed

theorem activation_failure_leaves_ledger_witness:
  "activate_subscription (Map.empty(1 \<mapsto> \<lparr>price_cents = 1000, plan_group_id = None\<rparr>)) issue_link
      (clock_at 2026 11 3 12) [example_row ''partial'' ''first'' 11 2026 0] 7 1 ''full'' None
     = (Inl NoGroupConfigured, [example_row ''partial'' ''first'' 11 2026 0], [])
   \<and> fst (activate_subscription example_plans no_link
      (clock_at 2026 11 3 12) [example_row ''partial'' ''first'' 11 2026 0] 7 1 ''full'' None)
     = Inl CredentialIssuanceFailed
   \<and> fst (snd (activate_subscription example_plans no_link
      (clock_at 2026 11 3 12) [example_row ''partial'' ''first'' 11 2026 0] 7 1 ''full'' None))
     = [example_row ''partial'' ''first'' 11 2026 0]"
  using activation_failure_leaves_ledger
          [where plans = "Map.empty(1 \<mapsto> \<lparr>price_cents = 1000, plan_group_id = None\<rparr>)"
             and pid = 1 and plan = "\<lparr>price_cents = 1000, plan_group_id = None\<rparr>" and gid = None
             and create_invite = issue_link and now = "clock_at 2026 11 3 12"
             and subs = "[example_row ''partial'' ''first'' 11 2026 0]" and uid = 7
             and ptype = "''full''" and g = 500]
        activation_failure_leaves_ledger
          [where plans = example_plans
             and pid = 1 and plan = "\<lparr>price_cents = 1000, plan_group_id = Some 500\<rparr>" and gid = None
             and create_invite = no_link and now = "clock_at 2026 11 3 12"
             and subs = "[example_row ''partial'' ''first'' 11 2026 0]" and uid = 7
             and ptype = "''full''" and g = 500]
  by (simp add: example_plans_def no_link_def truthy_def)

text \<open>
  C5 (the code departs from it). The claim: a renewal onto an active row of another period
  whose \<open>end_ts\<close> lies in the future computes the new \<open>end_ts\<close> from the greater of now and
  the existing \<open>end_ts\<close> and never shortens access. \<open>compute_end_ts\<close> does not use the
  existing \<open>end_ts\<close>: a row of October 2026 that runs until 5 December, renewed on
  2 November with a first part, ends on 15 November afterwards.
\<close>

theorem renewal_ignores_existing_end_ts:
  "time_time (clock_at 2026 11 2 12) < local_timestamp 2026 12 5 23 59 59
   \<and> map end_ts
       (fst (snd (activate_subscription example_plans issue_link (clock_at 2026 11 2 12)
                    [example_row ''full'' ''full'' 10 2026 (local_timestamp 2026 12 5 23 59 59)]
                    7 1 ''partial'' None)))
     = [local_timestamp 2026 11 15 23 59 59]
   \<and> local_timestamp 2026 11 15 23 59 59 < local_timestamp 2026 12 5 23 59 59"
  by (simp add: eval_defs example_timestamps)

subsection \<open>First part and the resolver\<close>

text \<open>
  C1 (the code departs from it). The claim: with \<open>part_paid = first\<close> for the current
  period no option at the full price is returned, and on day 17 the options are exactly
  second_part at \<open>P div 2\<close>. A first part paid on 3 November 2026 writes a row that ends on
  15 November, 23:59:59. On 15 November the resolver still offers second_part at 500; on
  17 November \<open>check_existing_active_subscription\<close> takes the row for expired and the
  resolver offers full at 1000.
\<close>

theorem first_part_row_offered_full_on_day_17:
  "actions_and_prices
     (get_payment_options example_plans (clock_at 2026 11 15 12)
        (fst (snd (activate_subscription example_plans issue_link (clock_at 2026 11 3 12) []
                     7 1 ''partial'' None))) 7 1)
     = [(''second_part'', 500)]
   \<and> actions_and_prices
     (get_payment_options example_plans (clock_at 2026 11 17 12)
        (fst (snd (activate_subscription example_plans issue_link (clock_at 2026 11 3 12) []
                     7 1 ''partial'' None))) 7 1)
     = [(''full'', 1000)]"
  unfolding example_partial_activation
  by (simp add: eval_defs example_timestamps)

subsection \<open>Promo engine\<close>

lemma round_half_even_100_bounds:
  "200 * round_half_even n 100 \<le> 2 * n + 100 \<and> 2 * n - 100 \<le> 200 * round_half_even n 100"
  unfolding round_half_even_def Let_def by (simp; arith)

lemma round_half_even_nonneg:
  assumes "0 \<le> n" "0 < d"
  shows "0 \<le> round_half_even n d"
proof -
  have "0 \<le> n div d" using assms by (simp add: pos_imp_zdiv_nonneg_iff)
  then show ?thesis by (simp add: round_half_even_def Let_def)
qed

lemma quotient_exponent_le:
  assumes "0 < a" "a < 2 ^ 53"
  shows "quotient_exponent a \<le> 46"
proof -
  have "bitlen a \<le> 53" using assms(2) by (simp add: bitlen_le_iff_power)
  then show ?thesis by (simp add: quotient_exponent_def Let_def)
qed

lemma scaled_round_div:
  fixes a P :: int
  assumes "0 \<le> a" "64 \<le> P"
  shows "round_half_even (a * P) 100 div P = a div 100"
proof -
  define k where "k = a div 100"
  define r where "r = a mod 100"
  define m where "m = round_half_even (a * P) 100"
  have a: "a = 100 * k + r" and r: "0 \<le> r" "r \<le> 99" by (simp_all add: k_def r_def)
  have aP: "a * P = 100 * (k * P) + r * P" using a by (simp add: algebra_simps)
  have rP0: "0 \<le> r * P" using r assms(2) by simp
  have rP1: "r * P \<le> 99 * P" using r assms(2) by (simp add: mult_right_mono)
  have rP2: "r = 0 \<or> P \<le> r * P"
  proof (cases "r = 0")
    case False
    then have "1 \<le> r" using r by simp
    then have "1 * P \<le> r * P" using assms(2) by (intro mult_right_mono) simp_all
    then show ?thesis by simp
  qed simp
  have b: "200 * m \<le> 2 * (a * P) + 100" "2 * (a * P) - 100 \<le> 200 * m"
    using round_half_even_100_bounds[of "a * P"] by (simp_all add: m_def)
  have lo: "k * P \<le> m"
  proof (cases "r = 0")
    case True
    then show ?thesis using b aP by simp
  next
    case False
    then have "P \<le> r * P" using rP2 by simp
    then show ?thesis using b aP assms(2) by linarith
  qed
  have hi: "m < k * P + P" using b aP rP1 assms(2) by linarith
  have "m = P * k + (m - k * P)" by (simp add: algebra_simps)
  moreover have "0 \<le> m - k * P" "m - k * P < P" using lo hi by simp_all
  ultimately have "m div P = k" by (rule int_div_pos_eq)
  then show ?thesis by (simp add: m_def k_def)
qed

lemma int_div_100_exact:
  assumes "0 \<le> a" "a < 2 ^ 53"
  shows "int_div_100 a = Inr (a div 100)"
proof (cases "a = 0")
  case True
  then show ?thesis by (simp add: int_div_100_def true_div_100_def int_of_float_def)
next
  case False
  then have pos: "0 < a" using assms(1) by simp
  define e where "e = quotient_exponent a - 52"
  have e: "e \<le> - 6" using quotient_exponent_le[OF pos assms(2)] by (simp add: e_def)
  define P :: int where "P = 2 ^ nat (- e)"
  have "(2::int) ^ 6 \<le> 2 ^ nat (- e)" using e by (intro power_increasing) simp_all
  then have P: "64 \<le> P" by (simp add: P_def)
  define m where "m = round_half_even (a * P) 100"
  have m0: "0 \<le> m" using round_half_even_nonneg[of "a * P" 100] assms(1) P by (simp add: m_def)
  have q: "quotient_exponent a \<le> 46" by (rule quotient_exponent_le[OF pos assms(2)])
  have t: "true_div_100 a = Inr (m, e)"
    unfolding true_div_100_def Let_def m_def P_def e_def using pos q by simp
  have "int_of_float (m, e) = m div P"
    using e m0 by (cases "m = 0") (simp_all add: int_of_float_def P_def)
  also have "\<dots> = a div 100" unfolding m_def by (rule scaled_round_div[OF assms(1) P])
  finally show ?thesis using t by (simp add: int_div_100_def)
qed

lemma int_of_float_nonneg: "0 \<le> m \<Longrightarrow> 0 \<le> int_of_float (m, e)"
  by (cases "m = 0") (simp_all add: int_of_float_def pos_imp_zdiv_nonneg_iff)

lemma int_div_100_nonneg:
  assumes "0 \<le> a" "int_div_100 a = Inr d"
  shows "0 \<le> d"
proof (cases "a = 0")
  case True
  then show ?thesis using assms(2) by (simp add: int_div_100_def true_div_100_def int_of_float_def)
next
  case False
  then have pos: "0 < a" using assms(1) by simp
  obtain m e where t: "true_div_100 a = Inr (m, e)" and d: "d = int_of_float (m, e)"
    using assms(2) by (auto simp: int_div_100_def split: sum.splits)
  have "0 \<le> m"
    using t pos
    by (auto simp: true_div_100_def Let_def round_half_even_nonneg split: if_splits)
  then show ?thesis using d int_of_float_nonneg by simp
qed

text \<open>
  C8 (amended). For a non-negative price and a promo code whose percent and fixed amount
  are not negative: whenever \<open>price * percent\<close> is below \<open>2 ^ 53\<close>, \<open>apply_promo_code\<close>
  returns \<open>max(0, price - discount)\<close>, where the discount is \<open>floor(price * percent / 100)\<close>
  for a percent code and the fixed amount for a fixed code; whatever the price, a result
  it returns is never negative and never above the price; 10 percent off 1000 is 900 and
  150 off 1000 is 850.
\<close>

theorem apply_promo_code_spec:
  assumes "0 \<le> amount"
    and "case discount_percent p of Some pc \<Rightarrow> 0 \<le> pc | None \<Rightarrow> True"
    and "case discount_fixed_cents p of Some fx \<Rightarrow> 0 \<le> fx | None \<Rightarrow> True"
  shows "(amount * (case discount_percent p of Some pc \<Rightarrow> pc | None \<Rightarrow> 0) < 2 ^ 53 \<longrightarrow>
            (\<exists>msg. apply_promo_code amount p
                     = Inr (max 0 (amount - spec_discount amount p), msg)))
       \<and> (\<forall>v msg. apply_promo_code amount p = Inr (v, msg) \<longrightarrow> 0 \<le> v \<and> v \<le> amount)
       \<and> (\<exists>msg. apply_promo_code 1000 (q\<lparr>discount_percent := Some 10\<rparr>) = Inr (900, msg))
       \<and> (\<exists>msg. apply_promo_code 1000
                    (q\<lparr>discount_percent := Some 0, discount_fixed_cents := Some 150\<rparr>)
                  = Inr (850, msg))"
proof -
  have d10: "int_div_100 10000 = Inr 100"
    using int_div_100_exact[of 10000] by simp
  have ex1: "\<exists>msg. apply_promo_code 1000 (q\<lparr>discount_percent := Some 10\<rparr>) = Inr (900, msg)"
    by (simp add: apply_promo_code_def truthy_def Let_def d10)
  have ex2: "\<exists>msg. apply_promo_code 1000
                    (q\<lparr>discount_percent := Some 0, discount_fixed_cents := Some 150\<rparr>)
                  = Inr (850, msg)"
    by (simp add: apply_promo_code_def truthy_def Let_def)
  have eq: "\<exists>msg. apply_promo_code amount p = Inr (max 0 (amount - spec_discount amount p), msg)"
    if b: "amount * (case discount_percent p of Some pc \<Rightarrow> pc | None \<Rightarrow> 0) < 2 ^ 53"
  proof (cases "discount_percent p")
    case None
    then show ?thesis using assms(1)
      by (cases "discount_fixed_cents p")
         (simp_all add: apply_promo_code_def spec_discount_def truthy_def Let_def)
  next
    case (Some pc)
    then have "0 \<le> pc" using assms(2) by simp
    then have "0 \<le> amount * pc" using assms(1) by simp
    moreover have "amount * pc < 2 ^ 53" using b Some by simp
    ultimately have "int_div_100 (amount * pc) = Inr (amount * pc div 100)"
      by (rule int_div_100_exact)
    then show ?thesis using Some assms(1)
      by (cases "discount_fixed_cents p")
         (simp_all add: apply_promo_code_def spec_discount_def truthy_def Let_def)
  qed
  have rng: "0 \<le> v \<and> v \<le> amount" if r: "apply_promo_code amount p = Inr (v, msg)" for v msg
  proof (cases "truthy (discount_percent p)")
    case True
    then obtain pc where pc: "discount_percent p = Some pc" "pc \<noteq> 0"
      by (auto simp: truthy_def split: option.splits)
    then have "0 \<le> pc" using assms(2) by simp
    then have nn: "0 \<le> amount * pc" using assms(1) by simp
    obtain d where d: "int_div_100 (amount * pc) = Inr d" and v: "v = max 0 (amount - d)"
      using r True pc by (auto simp: apply_promo_code_def Let_def split: sum.splits)
    have "0 \<le> d" using int_div_100_nonneg[OF nn d] .
    then show ?thesis using v assms(1) by simp
  next
    case False
    show ?thesis
    proof (cases "truthy (discount_fixed_cents p)")
      case True
      then obtain fx where fx: "discount_fixed_cents p = Some fx"
        by (auto simp: truthy_def split: option.splits)
      then have "0 \<le> fx" using assms(3) by simp
      moreover have "v = max 0 (amount - fx)"
        using r False True fx by (simp add: apply_promo_code_def Let_def)
      ultimately show ?thesis using assms(1) by simp
    next
      case F2: False
      then have "v = amount" using r False by (simp add: apply_promo_code_def)
      then show ?thesis using assms(1) by simp
    qed
  qed
  show ?thesis using eq rng ex1 ex2 by blast
qed

theorem apply_promo_code_spec_witness:
  "apply_promo_code 999 example_promo = Inr (900, PercentApplied ''SALE10'' 10)
   \<and> apply_promo_code 100 (example_promo\<lparr>discount_percent := Some 0, discount_fixed_cents := Some 150\<rparr>)
       = Inr (0, FixedApplied ''SALE10'' 150)"
proof -
  have a: "\<exists>msg. apply_promo_code 999 example_promo
                   = Inr (max 0 (999 - spec_discount 999 example_promo), msg)"
    using apply_promo_code_spec[of 999 example_promo]
    by (simp add: example_promo_def)
  have b: "\<exists>msg. apply_promo_code 100 (example_promo\<lparr>discount_percent := Some 0, discount_fixed_cents := Some 150\<rparr>)
                   = Inr (max 0 (100 - spec_discount 100 (example_promo\<lparr>discount_percent := Some 0, discount_fixed_cents := Some 150\<rparr>)), msg)"
    using apply_promo_code_spec[of 100 "example_promo\<lparr>discount_percent := Some 0, discount_fixed_cents := Some 150\<rparr>"]
    by (simp add: example_promo_def)
  show ?thesis using a b
    by (auto simp: apply_promo_code_def spec_discount_def example_promo_def truthy_def Let_def
             split: sum.splits)
qed

text \<open>
  The claim as stated (the formula for every non-negative price) fails where the double
  cannot hold the quotient: 1 percent off 14073748835532899 leaves 13933011347177570, one
  less than the formula, and 100 percent off 9007199254740993 leaves 1, not 0.
\<close>

theorem apply_promo_code_counterexample:
  "apply_promo_code 14073748835532899 (example_promo\<lparr>discount_percent := Some 1\<rparr>)
     = Inr (13933011347177570, PercentApplied ''SALE10'' 1)
   \<and> max 0 (14073748835532899
              - spec_discount 14073748835532899 (example_promo\<lparr>discount_percent := Some 1\<rparr>))
     = 13933011347177571
   \<and> apply_promo_code 9007199254740993 (example_promo\<lparr>discount_percent := Some 100\<rparr>)
     = Inr (1, PercentApplied ''SALE10'' 100)
   \<and> max 0 (9007199254740993
              - spec_discount 9007199254740993 (example_promo\<lparr>discount_percent := Some 100\<rparr>))
     = 0"
  by code_simp

subsection \<open>Expiration sweeper\<close>

lemma day21_tick_leaves_ledger:
  assumes "day now = 21" "hour now = 0" "minute now = 0"
  shows "check_expirations_tick plans users now subs = (OperationalError, subs, [])"
  using assms by (simp add: check_expirations_tick_def)

text \<open>
  C7 (the code departs from it). The claim: the sweep of day 21, 00:00 revokes every active
  row with \<open>part_paid = first\<close> for the current period. The statement of that sweep does
  not execute, so the pass ends in the error handler: the row of a first part paid on
  3 November 2026 is still active and not removed after the pass of 21 November, 00:00,
  and no ban is requested.
\<close>

theorem day21_sweep_revokes_nothing:
  "check_expirations_tick example_plans [7] (clock_at 2026 11 21 0)
     (fst (snd (activate_subscription example_plans issue_link (clock_at 2026 11 3 12) []
                  7 1 ''partial'' None)))
     = (OperationalError,
        fst (snd (activate_subscription example_plans issue_link (clock_at 2026 11 3 12) []
                    7 1 ''partial'' None)),
        [])
   \<and> map (\<lambda>s. (active s, removed s, payment_type s, part_paid s,
               current_period_month s, current_period_year s))
       (fst (snd (check_expirations_tick example_plans [7] (clock_at 2026 11 21 0)
          (fst (snd (activate_subscription example_plans issue_link (clock_at 2026 11 3 12) []
                       7 1 ''partial'' None))))))
     = [(True, False, ''partial'', ''first'', 11, 2026)]"
  unfolding example_partial_activation
  by (simp add: check_expirations_tick_def clock_at_def)

subsection \<open>Promo usage\<close>









end
